theory Spec2Isabelle
  imports Complex_Main
begin

section \<open>Errors and floating-point entries\<close>

text \<open>
  The exceptions the modelled functions can raise. \<open>AssertionFailed\<close> is what the helper
  \<open>assert_\<close> raises on a false condition; \<open>TypeError\<close> is a call with the wrong number
  of positional arguments; \<open>UnboundLocalError\<close> is the use of a local that no branch
  assigned; \<open>AttributeError\<close> is an attribute access on \<open>None\<close>; \<open>IndexError\<close> is an
  index out of range; \<open>ValueError\<close> is an assignment of an array of a shape that cannot
  be broadcast to the target.
\<close>

datatype error =
  AssertionFailed | TypeError | UnboundLocalError | AttributeError | IndexError | ValueError

text \<open>
  An entry of a floating-point array: a number, or the undefined marker \<open>numpy.nan\<close>.
  Numbers are exact rationals; rounding is not modelled.
\<close>

datatype fval = Fin rat | NaN

section \<open>Field evaluator: \<open>H1NodalMixin.evaluate_at\<close>\<close>

text \<open>
  The external finder \<open>get_ref_coors\<close> returns, per query point, reference coordinates,
  the owning cell and a status code.
\<close>

record ref_result =
  ref_coors :: "rat list list"
  ref_cells :: "nat list"
  ref_status :: "int list"

text \<open>
  The array \<open>vals\<close>: two-dimensional \<open>(n_coor, n_components)\<close> after the reshape of the
  value mode, three-dimensional \<open>(n_coor, n_components, dim)\<close> in the gradient mode.
\<close>

datatype vals = Vals2 "fval list list" | Vals3 "fval list list list"

text \<open>The four shapes of the returned tuple.\<close>

datatype eval_result =
    RetVals vals
  | RetValsCells vals "nat list"
  | RetValsCellsStatus vals "nat list" "int list"
  | RetValsRefCellsStatus vals "rat list list" "nat list" "int list"

fun result_vals :: "eval_result \<Rightarrow> vals" where
  "result_vals (RetVals v) = v"
| "result_vals (RetValsCells v c) = v"
| "result_vals (RetValsCellsStatus v c s) = v"
| "result_vals (RetValsRefCellsStatus v r c s) = v"

text \<open>The entries of \<open>vals[i]\<close>, flattened.\<close>

fun vals_row :: "vals \<Rightarrow> nat \<Rightarrow> fval list" where
  "vals_row (Vals2 v) i = v ! i"
| "vals_row (Vals3 v) i = concat (v ! i)"

fun n_rows :: "vals \<Rightarrow> nat" where
  "n_rows (Vals2 v) = length v"
| "n_rows (Vals3 v) = length v"

text \<open>\<open>ii = nm.where(status > 1)[0]\<close>: the indices of the points whose status exceeds one.\<close>

definition where_status_gt1 :: "int list \<Rightarrow> nat list" where
  "where_status_gt1 st = filter (\<lambda>i. st ! i > 1) [0..<length st]"

text \<open>\<open>vals[ii] = nm.nan\<close>: every entry of each selected row becomes NaN.\<close>

fun set_nan :: "nat list \<Rightarrow> vals \<Rightarrow> vals" where
  "set_nan ii (Vals2 v) = Vals2 (fold (\<lambda>i w. w[i := map (\<lambda>_. NaN) (w ! i)]) ii v)"
| "set_nan ii (Vals3 v) = Vals3 (fold (\<lambda>i w. w[i := map (map (\<lambda>_. NaN)) (w ! i)]) ii v)"

text \<open>
  The array \<open>vals\<close> as the method allocates it (\<open>nm.empty\<close> with last axis 1 in the
  value mode and \<open>sdim\<close> in the gradient mode), the external \<open>evaluate_in_rc\<close> fills it
  (\<open>interp i j k\<close> is what it writes into entry \<open>(i, j, k)\<close>) and the value mode reshapes
  it to two dimensions.
\<close>

definition interpolate :: "nat \<Rightarrow> nat \<Rightarrow> nat \<Rightarrow> (nat \<Rightarrow> nat \<Rightarrow> nat \<Rightarrow> fval) \<Rightarrow> string \<Rightarrow> vals" where
  "interpolate n_coor n_comp sdim interp mode =
    (let d = (if mode = ''val'' then 1 else sdim);
         filled = map (\<lambda>i. map (\<lambda>j. map (\<lambda>k. interp i j k) [0..<d]) [0..<n_comp])
                    [0..<n_coor]
     in if mode = ''val'' then Vals2 (map concat filled) else Vals3 filled)"

text \<open>
  \<open>evaluate_at\<close>. The finder's result \<open>rc\<close> and the interpolation \<open>interp\<close> are
  parameters; \<open>n_coor = coors.shape[0]\<close>, \<open>sdim = coors.shape[1]\<close>,
  \<open>n_comp = source_vals.shape[1]\<close>. A \<open>mode\<close> other than \<open>'val'\<close> and \<open>'grad'\<close> leaves
  \<open>vals\<close> unassigned, and its first use raises.
\<close>

definition evaluate_at ::
  "nat \<Rightarrow> nat \<Rightarrow> nat \<Rightarrow> (nat \<Rightarrow> nat \<Rightarrow> nat \<Rightarrow> fval) \<Rightarrow> ref_result \<Rightarrow> string
    \<Rightarrow> bool \<Rightarrow> bool \<Rightarrow> bool \<Rightarrow> error + eval_result" where
  "evaluate_at n_coor n_comp sdim interp rc mode ret_cells ret_status ret_ref_coors =
    (if mode \<noteq> ''val'' \<and> mode \<noteq> ''grad'' then Inl UnboundLocalError
     else
       let vals = interpolate n_coor n_comp sdim interp mode;
           vals = (if \<not> ret_status then set_nan (where_status_gt1 (ref_status rc)) vals
                   else vals)
       in if ret_ref_coors then
            Inr (RetValsRefCellsStatus vals (ref_coors rc) (ref_cells rc) (ref_status rc))
          else if ret_status then Inr (RetValsCellsStatus vals (ref_cells rc) (ref_status rc))
          else if ret_cells then Inr (RetValsCells vals (ref_cells rc))
          else Inr (RetVals vals))"

text \<open>The interpolated entries of point \<open>i\<close>, flattened, before any overwrite.\<close>

definition interpolated_row :: "nat \<Rightarrow> nat \<Rightarrow> (nat \<Rightarrow> nat \<Rightarrow> nat \<Rightarrow> fval) \<Rightarrow> string \<Rightarrow> nat \<Rightarrow> fval list" where
  "interpolated_row n_comp sdim interp mode i =
    concat (map (\<lambda>j. map (\<lambda>k. interp i j k) [0..<(if mode = ''val'' then 1 else sdim)])
              [0..<n_comp])"

text \<open>A sample call: three query points in the plane, one component, statuses 0, 1 and 2.\<close>

definition sample_rc :: ref_result where
  "sample_rc = \<lparr>ref_coors = [[0, 0], [1, 0], [3, 0]], ref_cells = [0, 0, 0],
                 ref_status = [0, 1, 2]\<rparr>"

definition sample_interp :: "nat \<Rightarrow> nat \<Rightarrow> nat \<Rightarrow> fval" where
  "sample_interp i j k = Fin (of_nat i + 5)"

section \<open>DOF connectivity builder: \<open>H1NodalMixin._setup_facet_dofs\<close>\<close>









section \<open>Mesh, topology and regions\<close>

text \<open>
  The data of a mesh that the refinement functions read: vertex coordinates, and for the
  first (and only used) cell group its connectivity, material ids and cell description
  (\<open>conns[0]\<close>, \<open>mat_ids[0]\<close>, \<open>descs[0]\<close>).
\<close>

record mesh =
  coors :: "rat list list"
  conn :: "nat list list"
  mat_id :: "nat list"
  desc :: string

text \<open>
  The topology (\<open>cmesh\<close>) is read through its cell-to-facet connectivity only: row \<open>c\<close>
  lists the global ids of the facets of cell \<open>c\<close>, in local order. A domain is a mesh
  with its topology.
\<close>

type_synonym cmesh = "nat list list"

record domain =
  d_mesh :: mesh
  d_cmesh :: cmesh

text \<open>A region: its cells and its facets, both ascending (\<open>shape.n_cell\<close> is the number of cells).\<close>

record region =
  r_cells :: "nat list"
  r_facets :: "nat list"

text \<open>
  Modelled from the spec: the region selector \<open>domain.create_region\<close> is not among the
  sources. A region of cells is given by the cells its selector function returns; its
  facet set is the set of the facets of these cells, ascending and without repetition.
\<close>

definition create_region :: "cmesh \<Rightarrow> nat list \<Rightarrow> region" where
  "create_region cm cs =
     \<lparr>r_cells = cs, r_facets = sort (remdups (concat (map (\<lambda>c. cm ! c) cs)))\<rparr>"

text \<open>
  Modelled from the spec: the adjacency query \<open>cmesh.get_incident\<close> is not among the
  sources. The cells incident to a facet are the cells whose facet row contains it,
  ascending; the query returns them for all given facets in one flat array, with the
  offsets of the per-facet blocks.
\<close>

definition incident_cells :: "cmesh \<Rightarrow> nat \<Rightarrow> nat list" where
  "incident_cells cm f = filter (\<lambda>c. f \<in> set (cm ! c)) [0..<length cm]"

fun offsets :: "nat \<Rightarrow> nat list \<Rightarrow> nat list" where
  "offsets acc [] = [acc]"
| "offsets acc (n # ns) = acc # offsets (acc + n) ns"

definition get_incident :: "cmesh \<Rightarrow> nat list \<Rightarrow> nat list \<times> nat list" where
  "get_incident cm facets =
     (concat (map (incident_cells cm) facets),
      offsets 0 (map (\<lambda>f. length (incident_cells cm f)) facets))"

text \<open>
  Modelled from the spec: \<open>cmesh.get_local_ids\<close> is not among the sources. For every
  given facet and every cell of its block in the flat incidence array, the local index of
  the facet in that cell (the position of its first occurrence in the cell's facet row).
\<close>

definition local_id :: "nat list \<Rightarrow> nat \<Rightarrow> nat" where
  "local_id row f = length (takeWhile (\<lambda>x. x \<noteq> f) row)"

definition get_local_ids :: "cmesh \<Rightarrow> nat list \<Rightarrow> nat list \<Rightarrow> nat list \<Rightarrow> nat list" where
  "get_local_ids cm facets cells offs =
     concat (map (\<lambda>k. map (\<lambda>c. local_id (cm ! c) (facets ! k))
                          (take (offs ! (k + 1) - offs ! k) (drop (offs ! k) cells)))
               [0..<length facets])"

section \<open>Array helpers\<close>

text \<open>\<open>refine_flag.any()\<close>.\<close>

definition any_flag :: "bool list \<Rightarrow> bool" where
  "any_flag flag = list_ex (\<lambda>b. b) flag"

text \<open>\<open>nm.nonzero(refine_flag)[0]\<close> and \<open>nm.nonzero(1 - refine_flag)[0]\<close>.\<close>

definition get_refine :: "bool list \<Rightarrow> nat list" where
  "get_refine flag = filter (\<lambda>i. flag ! i) [0..<length flag]"

definition get_coarse :: "bool list \<Rightarrow> nat list" where
  "get_coarse flag = filter (\<lambda>i. \<not> flag ! i) [0..<length flag]"

text \<open>\<open>nm.intersect1d\<close>: the common values, ascending and without repetition.\<close>

definition intersect1d :: "nat list \<Rightarrow> nat list \<Rightarrow> nat list" where
  "intersect1d a b = sort (remdups (filter (\<lambda>x. x \<in> set b) a))"

text \<open>\<open>nm.diff\<close>.\<close>

definition diff :: "nat list \<Rightarrow> int list" where
  "diff xs = map (\<lambda>i. int (xs ! (i + 1)) - int (xs ! i)) [0..<length xs - 1]"

text \<open>
  \<open>reshape((-1, 2))\<close> of a flat array. It is applied only after the assertion that every
  block has two entries, so the length is even.
\<close>

fun reshape2 :: "'a list \<Rightarrow> 'a list list" where
  "reshape2 (a # b # xs) = [a, b] # reshape2 xs"
| "reshape2 xs = []"

text \<open>
  \<open>nm.where(refine_flag[cells], a[:, :1], a[:, 1:])\<close> for two-column arrays \<open>cells\<close> and
  \<open>a\<close>: entry \<open>(r, j)\<close> is \<open>a[r, 0]\<close> where \<open>cells[r, j]\<close> is flagged and \<open>a[r, 1]\<close>
  elsewhere (the one-column operands are broadcast along the row).
\<close>

definition where_flag :: "bool list \<Rightarrow> nat list list \<Rightarrow> nat list list \<Rightarrow> nat list list" where
  "where_flag flag cells a =
     map (\<lambda>r. map (\<lambda>c. if flag ! c then a ! r ! 0 else a ! r ! 1) (cells ! r))
       [0..<length cells]"

text \<open>
  \<open>nm.searchsorted\<close> (left side) on an ascending array: the first position whose entry is
  not below the value.
\<close>

definition searchsorted :: "nat list \<Rightarrow> nat \<Rightarrow> nat" where
  "searchsorted a v = length (takeWhile (\<lambda>x. x < v) a)"

text \<open>Storing into an array of dtype \<open>uint32\<close>.\<close>

definition uint32 :: "nat \<Rightarrow> nat" where
  "uint32 n = n mod 2 ^ 32"

section \<open>Refinement with hanging nodes\<close>

text \<open>Rows = facets of reference cell, columns = [sub_cell_i, local facet_i].\<close>

definition refine_edges_2_4 :: "nat list list list" where
  "refine_edges_2_4 = [[[0, 0], [1, 3]],
                       [[1, 0], [2, 3]],
                       [[2, 0], [3, 3]],
                       [[3, 0], [0, 3]]]"

definition refine_faces_3_8 :: "nat list list list" where
  "refine_faces_3_8 = [[[0, 0], [1, 0], [2, 0], [3, 0]],
                       [[0, 1], [3, 2], [4, 2], [7, 1]],
                       [[0, 2], [1, 1], [4, 1], [5, 2]],
                       [[4, 0], [5, 0], [6, 0], [7, 0]],
                       [[1, 2], [2, 1], [5, 1], [6, 2]],
                       [[2, 2], [3, 1], [6, 1], [7, 2]]]"

text \<open>
  \<open>find_level_interface\<close>: the facets on the boundary between the cells to refine and the
  others. Returns the rows \<open>[facet, local id in cells[:, 0], local id in cells[:, 1]]\<close>,
  the rows \<open>[cell to refine, neighbour, neighbour's index among the coarse cells]\<close>, and
  the two regions. The refine region is not empty when the flag has a true entry.
\<close>

definition find_level_interface ::
  "domain \<Rightarrow> bool list
    \<Rightarrow> error + (nat list list \<times> nat list list \<times> region option \<times> region option)" where
  "find_level_interface domain refine_flag =
    (if \<not> any_flag refine_flag then Inr ([], [], None, None)
     else
       let cm = d_cmesh domain;
           region0 = create_region cm (get_coarse refine_flag);
           region1 = create_region cm (get_refine refine_flag);
           facets = intersect1d (r_facets region0) (r_facets region1);
           (cells, offs) = get_incident cm facets
       in if \<not> list_all (\<lambda>d. d = 2) (diff offs) then Inl AssertionFailed
          else
            let ii = get_local_ids cm facets cells offs;
                ii = reshape2 ii;
                cells = reshape2 cells;
                ii = where_flag refine_flag cells ii;
                cells = where_flag refine_flag cells cells;
                facets = map (\<lambda>r. (facets ! r) # (ii ! r)) [0..<length facets];
                ii = map (\<lambda>row. searchsorted (r_cells region0) (row ! 1)) cells;
                cells = map (\<lambda>r. (cells ! r) @ [ii ! r]) [0..<length cells]
            in Inr (facets, cells, Some region0, Some region1))"

text \<open>
  \<open>refine_region\<close>: coarse cell \<open>sub_cells[ii, 0]\<close> in mesh0 is split into
  \<open>sub_cells[ii, 1:]\<close> in mesh1. The refinement of the sub-mesh of the flagged cells
  (\<open>Mesh.from_region\<close> followed by \<open>FEDomain.refine\<close>, neither among the sources) is the
  parameter \<open>refined_submesh\<close>, a function of the input mesh and the cells to refine. Of
  the returned domain only the mesh is modelled.
\<close>

definition refine_region ::
  "(mesh \<Rightarrow> nat list \<Rightarrow> mesh) \<Rightarrow> domain \<Rightarrow> region option \<Rightarrow> region option
    \<Rightarrow> error + (mesh \<times> nat list list option)" where
  "refine_region refined_submesh domain0 region0 region1 =
    (case region1 of
       None \<Rightarrow> Inr (d_mesh domain0, None)
     | Some r1 \<Rightarrow>
        (case region0 of
           None \<Rightarrow> Inl AttributeError
         | Some r0 \<Rightarrow>
            let mesh0 = d_mesh domain0;
                mesh1r = refined_submesh mesh0 (r_cells r1);
                n1 = length (r_cells r1);
                n0 = length (r_cells r0);
                sub_cells = map (\<lambda>i. uint32 (r_cells r1 ! i)
                                      # map (\<lambda>k. uint32 (n0 + (4 * i + k))) [0..<4])
                              [0..<n1];
                conn0 = conn mesh0;
                conns = map (\<lambda>c. conn0 ! c) (r_cells r0) @ conn mesh1r;
                mat_ids = map (\<lambda>c. mat_id mesh0 ! c) (r_cells r0) @ mat_id mesh1r;
                mesh = \<lparr>coors = coors mesh1r, conn = conns, mat_id = mat_ids,
                         desc = desc mesh1r\<rparr>
            in Inr (mesh, Some sub_cells)))"

text \<open>
  The facets that \<open>find_level_interface\<close> classifies as interface facets: those in the
  facet sets of both regions.
\<close>

definition interface_facets :: "cmesh \<Rightarrow> bool list \<Rightarrow> nat list" where
  "interface_facets cm refine_flag =
     intersect1d (r_facets (create_region cm (get_coarse refine_flag)))
                 (r_facets (create_region cm (get_refine refine_flag)))"

text \<open>
  \<open>find_facet_substitutions\<close>: find facet substitutions in connectivity.
  \<open>sub = [coarse cell, coarse facet, fine1 cell, fine1 facet, fine2 cell, fine2 facet]\<close>.
  The body of the loop for one interface facet \<open>fac\<close> with its cells row \<open>crow\<close>:
\<close>

definition facet_substitution ::
  "nat list list \<Rightarrow> nat list list list \<Rightarrow> nat list \<Rightarrow> nat list \<Rightarrow> error + int list" where
  "facet_substitution sub_cells refine_facets fac crow =
    (let fine = crow ! 0;
         coarse = crow ! 2;
         isub = searchsorted (map hd sub_cells) fine
     in if length sub_cells \<le> isub then Inl IndexError
        else
          let refined = tl (sub_cells ! isub)
          in if length refine_facets \<le> fac ! 1 then Inl IndexError
             else
               let rf = refine_facets ! (fac ! 1)
               in if list_ex (\<lambda>e. length refined \<le> e ! 0) rf then Inl IndexError
                  else
                    let used = map (\<lambda>e. refined ! (e ! 0)) rf;
                        fused = map (\<lambda>e. e ! 1) rf;
                        master = [coarse, fac ! 2];
                        slave = map2 (\<lambda>u f. [u, f]) used fused
                    in Inr (map int (concat (master # slave))))"

text \<open>Running the loop bodies in order; the first exception ends the loop.\<close>

fun collect :: "(error + 'a) list \<Rightarrow> error + 'a list" where
  "collect [] = Inr []"
| "collect (x # xs) =
     (case x of
        Inl e \<Rightarrow> Inl e
      | Inr v \<Rightarrow> (case collect xs of Inl e \<Rightarrow> Inl e | Inr vs \<Rightarrow> Inr (v # vs)))"

text \<open>
  With no sub-cell map (\<open>sub_cells\<close> is \<open>None\<close>) the loop body fails on its first
  subscript; with no interface facet the body never runs.
\<close>

definition find_facet_substitutions ::
  "nat list list \<Rightarrow> nat list list \<Rightarrow> nat list list option \<Rightarrow> nat list list list
    \<Rightarrow> error + int list list" where
  "find_facet_substitutions facets cells sub_cells refine_facets =
     collect (map (\<lambda>ii. case sub_cells of
                           None \<Rightarrow> Inl TypeError
                         | Some sc \<Rightarrow> facet_substitution sc refine_facets (facets ! ii) (cells ! ii))
                [0..<length facets])"

text \<open>
  A call of \<open>find_facet_substitutions\<close>. The function has four positional parameters and
  no default values: a call that passes only three (the fourth is \<open>None\<close> here) raises
  \<open>TypeError\<close> before the body runs.
\<close>

definition call_find_facet_substitutions ::
  "nat list list \<Rightarrow> nat list list \<Rightarrow> nat list list option \<Rightarrow> nat list list list option
    \<Rightarrow> error + int list list" where
  "call_find_facet_substitutions facets cells sub_cells refine_facets =
     (case refine_facets of
        None \<Rightarrow> Inl TypeError
      | Some rf \<Rightarrow> find_facet_substitutions facets cells sub_cells rf)"

text \<open>\<open>nm.cumsum\<close>.\<close>

definition cumsum :: "int list \<Rightarrow> int list" where
  "cumsum xs = map (\<lambda>i. sum_list (take (i + 1) xs)) [0..<length xs]"

text \<open>Reading entry \<open>i\<close> of an array; an index below zero is taken from the end.\<close>

definition py_nth :: "int list \<Rightarrow> int \<Rightarrow> error + int" where
  "py_nth xs i =
     (if 0 \<le> i \<and> i < int (length xs) then Inr (xs ! nat i)
      else if i < 0 \<and> - int (length xs) \<le> i then Inr (xs ! nat (int (length xs) + i))
      else Inl IndexError)"

text \<open>
  The index shift of the previously recorded substitutions:
  \<open>mods = nm.zeros(n_el + 1); mods[refine > 0] = -1; mods = nm.cumsum(mods)\<close> (the
  boolean mask selects among the leading entries), then
  \<open>gsubs[:, [0, 2, 4]] += mods[gsubs[:, [0, 2, 4]]]\<close>.
\<close>

definition shift_mods :: "nat \<Rightarrow> bool list \<Rightarrow> int list" where
  "shift_mods n_el refine_flag =
     cumsum (map (\<lambda>i. if i < length refine_flag \<and> refine_flag ! i then - 1 else 0)
               [0..<n_el + 1])"

definition shift_row :: "int list \<Rightarrow> int list \<Rightarrow> error + int list" where
  "shift_row mods row =
     (if length row < 5 then Inl IndexError
      else
        case (py_nth mods (row ! 0), py_nth mods (row ! 2), py_nth mods (row ! 4)) of
          (Inr a, Inr b, Inr c) \<Rightarrow>
             Inr (row[0 := row ! 0 + a, 2 := row ! 2 + b, 4 := row ! 4 + c])
        | _ \<Rightarrow> Inl IndexError)"

definition shift_gsubs :: "nat \<Rightarrow> bool list \<Rightarrow> int list list \<Rightarrow> error + int list list" where
  "shift_gsubs n_el refine_flag gsubs =
     collect (map (shift_row (shift_mods n_el refine_flag)) gsubs)"

text \<open>
  \<open>refine\<close>. With interface facets present, the printed selections
  \<open>conn1[sub_cells[:, 1:]]\<close>, \<open>conn0[sub_cells[:, 0]]\<close>, \<open>conn0[cells[:, 1]]\<close> and
  \<open>conn1[cells[:, 2]]\<close> are evaluated (a row index out of range raises) before the
  assertion that the coarse rows agree. The first call of \<open>find_facet_substitutions\<close> is
  made for the \<open>2_4\<close> cells only; the second call passes three arguments.
\<close>

definition refine ::
  "(mesh \<Rightarrow> nat list \<Rightarrow> mesh) \<Rightarrow> domain \<Rightarrow> bool list \<Rightarrow> int list list option
    \<Rightarrow> error + (mesh \<times> int list list option)" where
  "refine refined_submesh domain0 refine_flag gsubs =
    (case find_level_interface domain0 refine_flag of
       Inl e \<Rightarrow> Inl e
     | Inr (facets, cells, region0, region1) \<Rightarrow>
        (case refine_region refined_submesh domain0 region0 region1 of
           Inl e \<Rightarrow> Inl e
         | Inr (mesh1, sub_cells) \<Rightarrow>
            let conn0 = conn (d_mesh domain0);
                conn1 = conn mesh1;
                checked =
                  (if length facets > 0 then
                     (case sub_cells of
                        None \<Rightarrow> Inl TypeError
                      | Some sc \<Rightarrow>
                         if list_ex (\<lambda>row. list_ex (\<lambda>c. length conn1 \<le> c) (tl row)) sc
                            \<or> list_ex (\<lambda>row. length conn0 \<le> hd row) sc
                            \<or> list_ex (\<lambda>row. length conn0 \<le> row ! 1) cells
                            \<or> list_ex (\<lambda>row. length conn1 \<le> row ! 2) cells
                         then Inl IndexError
                         else if map (\<lambda>row. conn0 ! (row ! 1)) cells
                                   \<noteq> map (\<lambda>row. conn1 ! (row ! 2)) cells
                         then Inl AssertionFailed
                         else Inr ())
                   else Inr ())
            in case checked of
                 Inl e \<Rightarrow> Inl e
               | Inr _ \<Rightarrow>
                  (case (if desc (d_mesh domain0) = ''2_4''
                         then call_find_facet_substitutions facets cells sub_cells
                                (Some refine_edges_2_4)
                         else Inr []) of
                     Inl e \<Rightarrow> Inl e
                   | Inr _ \<Rightarrow>
                      (case call_find_facet_substitutions facets cells sub_cells None of
                         Inl e \<Rightarrow> Inl e
                       | Inr gsubs1 \<Rightarrow>
                          (case gsubs of
                             None \<Rightarrow> Inr (mesh1, if gsubs1 \<noteq> [] then Some gsubs1 else None)
                           | Some g \<Rightarrow>
                              if gsubs1 \<noteq> [] then
                                (case shift_gsubs (length (conn mesh1)) refine_flag g of
                                   Inl e \<Rightarrow> Inl e
                                 | Inr g' \<Rightarrow> Inr (mesh1, Some (g' @ gsubs1)))
                              else Inr (mesh1, Some g))))))"

text \<open>
  A domain whose topology matches its mesh: one facet row, one connectivity row and one
  material id per cell, and four facets per cell when the cells are quadrilaterals.
\<close>

definition wf_domain :: "domain \<Rightarrow> bool" where
  "wf_domain domain =
     (length (conn (d_mesh domain)) = length (d_cmesh domain)
      \<and> length (mat_id (d_mesh domain)) = length (d_cmesh domain)
      \<and> (desc (d_mesh domain) = ''2_4'' \<longrightarrow> list_all (\<lambda>row. length row = 4) (d_cmesh domain)))"

section \<open>Basis transform: \<open>eval_basis_transform\<close>\<close>











definition sample_gsubs :: "nat list list" where
  "sample_gsubs = [[1, 2, 3, 0, 4, 3], [2, 1, 6, 0, 3, 3]]"

text \<open>
  The rows that \<open>find_level_interface\<close> builds for one interface facet \<open>f\<close>, when the
  facet has two incident cells: the two local facet ids and the two cells after the
  \<open>nm.where\<close> selections.
\<close>

definition ii_row :: "cmesh \<Rightarrow> bool list \<Rightarrow> nat \<Rightarrow> nat list" where
  "ii_row cm flag f = (let inc = incident_cells cm f; ids = map (\<lambda>c. local_id (cm ! c) f) inc
      in map (\<lambda>c. if flag ! c then ids ! 0 else ids ! 1) inc)"

definition cells_row :: "cmesh \<Rightarrow> bool list \<Rightarrow> nat \<Rightarrow> nat list" where
  "cells_row cm flag f = (let inc = incident_cells cm f
      in map (\<lambda>c. if flag ! c then inc ! 0 else inc ! 1) inc)"

text \<open>
  A sample domain: a 2 x 2 grid of quadrilaterals (vertex \<open>x + 3 y\<close>, cells row by row,
  twelve edges). A second sample has a branching edge: its last two cells and the cell
  \<open>[1, 2, 5, 4]\<close> all contain the edge between the vertices 4 and 5 (edge 6).
\<close>

definition quad_mesh :: mesh where
  "quad_mesh = \<lparr>coors = [[0, 0], [1, 0], [2, 0], [0, 1], [1, 1], [2, 1], [0, 2], [1, 2], [2, 2]],
                  conn = [[0, 1, 4, 3], [1, 2, 5, 4], [3, 4, 7, 6], [4, 5, 8, 7]],
                  mat_id = [0, 0, 0, 0], desc = ''2_4''\<rparr>"

definition quad_domain :: domain where
  "quad_domain = \<lparr>d_mesh = quad_mesh,
                    d_cmesh = [[0, 1, 2, 3], [4, 5, 6, 1], [2, 7, 8, 9], [6, 10, 11, 7]]\<rparr>"

definition branching_mesh :: mesh where
  "branching_mesh =
     \<lparr>coors = [[0, 0], [1, 0], [2, 0], [0, 1], [1, 1], [2, 1], [0, 2], [1, 2], [2, 2],
               [1, 3], [2, 3]],
      conn = [[0, 1, 4, 3], [1, 2, 5, 4], [4, 5, 8, 7], [4, 5, 10, 9]],
      mat_id = [0, 0, 0, 0], desc = ''2_4''\<rparr>"

definition branching_domain :: domain where
  "branching_domain = \<lparr>d_mesh = branching_mesh,
                         d_cmesh = [[0, 1, 2, 3], [4, 5, 6, 1], [6, 7, 8, 9], [6, 10, 11, 12]]\<rparr>"

text \<open>A list of previously recorded substitutions, for a chained pass over the sample grid.\<close>

definition prior_gsubs :: "int list list" where
  "prior_gsubs = [[0, 1, 1, 3, 2, 0]]"


text \<open>
  Sample refinements standing for the external sub-mesh refinement: the last cell
  \<open>[4, 5, 8, 7]\<close> of the sample grid split into four quadrilaterals, and the unit
  hexahedron split into eight. Both keep the input's vertices and append the new ones.
\<close>

definition refine_cell3 :: "mesh \<Rightarrow> nat list \<Rightarrow> mesh" where
  "refine_cell3 m cs =
     \<lparr>coors = coors m @ [[3 / 2, 1], [2, 3 / 2], [3 / 2, 2], [1, 3 / 2], [3 / 2, 3 / 2]],
      conn = [[4, 9, 13, 12], [9, 5, 10, 13], [13, 10, 8, 11], [12, 13, 11, 7]],
      mat_id = [0, 0, 0, 0], desc = desc m\<rparr>"




section \<open>Properties of the field evaluator\<close>

lemma fold_update_length:
  "length (fold (\<lambda>i w. w[i := f (w ! i)]) ii v) = length v"
  by (induction ii arbitrary: v) auto

lemma fold_update_nth:
  "distinct ii \<Longrightarrow> k < length v \<Longrightarrow>
   fold (\<lambda>i w. w[i := f (w ! i)]) ii v ! k = (if k \<in> set ii then f (v ! k) else v ! k)"
proof (induction ii arbitrary: v)
  case Nil
  then show ?case by simp
next
  case (Cons a ii)
  have len: "k < length (v[a := f (v ! a)])" using Cons.prems by simp
  have "fold (\<lambda>i w. w[i := f (w ! i)]) (a # ii) v ! k =
        fold (\<lambda>i w. w[i := f (w ! i)]) ii (v[a := f (v ! a)]) ! k" by simp
  also have "\<dots> = (if k \<in> set ii then f (v[a := f (v ! a)] ! k) else v[a := f (v ! a)] ! k)"
    using Cons.IH [OF _ len] Cons.prems by simp
  also have "\<dots> = (if k \<in> set (a # ii) then f (v ! k) else v ! k)"
    using Cons.prems by (cases "k = a") (auto simp: nth_list_update)
  finally show ?case .
qed

lemma where_status_gt1_distinct: "distinct (where_status_gt1 st)"
  by (simp add: where_status_gt1_def)

lemma where_status_gt1_set: "set (where_status_gt1 st) = {i. i < length st \<and> st ! i > 1}"
  by (auto simp: where_status_gt1_def)

lemma n_rows_set_nan: "n_rows (set_nan ii v) = n_rows v"
  by (cases v) (simp_all add: fold_update_length)

lemma n_rows_interpolate: "n_rows (interpolate n_coor n_comp sdim interp mode) = n_coor"
  by (simp add: interpolate_def Let_def)

lemma vals_row_interpolate:
  "i < n_coor \<Longrightarrow>
   vals_row (interpolate n_coor n_comp sdim interp mode) i = interpolated_row n_comp sdim interp mode i"
  by (simp add: interpolate_def interpolated_row_def Let_def)

lemma concat_map_map_const:
  "concat (map (map (\<lambda>_. c)) xss) = replicate (length (concat xss)) c"
  by (induction xss) (simp_all add: replicate_add map_replicate_const)

lemma vals_row_set_nan:
  "distinct ii \<Longrightarrow> i < n_rows v \<Longrightarrow>
   vals_row (set_nan ii v) i =
     (if i \<in> set ii then replicate (length (vals_row v i)) NaN else vals_row v i)"
proof (cases v)
  case (Vals2 w)
  assume "distinct ii" "i < n_rows v"
  then show ?thesis using Vals2 fold_update_nth [of ii i w "map (\<lambda>_. NaN)"]
    by (simp add: map_replicate_const)
next
  case (Vals3 w)
  assume "distinct ii" "i < n_rows v"
  then show ?thesis using Vals3 fold_update_nth [of ii i w "map (map (\<lambda>_. NaN))"]
    by (simp add: concat_map_map_const)
qed


text \<open>
  C3. When the caller does not ask for the status (\<open>ret_status\<close> is False), every query
  point whose status code is greater than 1 has all entries of its value overwritten with
  NaN (never a zero), and a point with status 0 or 1 (any status not above 1) keeps its
  interpolated entries. This holds for both modes and whatever \<open>ret_cells\<close> and
  \<open>ret_ref_coors\<close> are.
\<close>

theorem evaluate_at_undefined_marker:
  assumes "mode = ''val'' \<or> mode = ''grad''"
    and "length (ref_status rc) = n_coor"
    and "i < n_coor"
  shows "\<exists>res. evaluate_at n_coor n_comp sdim interp rc mode ret_cells False ret_ref_coors = Inr res
      \<and> n_rows (result_vals res) = n_coor
      \<and> (ref_status rc ! i > 1 \<longrightarrow>
            vals_row (result_vals res) i
              = replicate (length (interpolated_row n_comp sdim interp mode i)) NaN
          \<and> Fin 0 \<notin> set (vals_row (result_vals res) i))
      \<and> (ref_status rc ! i \<le> 1 \<longrightarrow>
            vals_row (result_vals res) i = interpolated_row n_comp sdim interp mode i)"
proof -
  let ?v = "interpolate n_coor n_comp sdim interp mode"
  let ?m = "set_nan (where_status_gt1 (ref_status rc)) ?v"
  let ?res = "evaluate_at n_coor n_comp sdim interp rc mode ret_cells False ret_ref_coors"
  have ok: "\<not> (mode \<noteq> ''val'' \<and> mode \<noteq> ''grad'')" using assms(1) by blast
  obtain res where res: "?res = Inr res" and rv: "result_vals res = ?m"
    using ok by (cases ret_ref_coors; cases ret_cells) (simp_all add: evaluate_at_def)
  have i: "i < n_rows ?v" using assms(3) by (simp add: n_rows_interpolate)
  have row: "vals_row ?m i =
      (if ref_status rc ! i > 1
       then replicate (length (interpolated_row n_comp sdim interp mode i)) NaN
       else interpolated_row n_comp sdim interp mode i)"
    using vals_row_set_nan [OF where_status_gt1_distinct i, of "ref_status rc"] assms(2,3)
    by (simp add: where_status_gt1_set vals_row_interpolate)
  show ?thesis using res rv row by (auto simp: n_rows_set_nan n_rows_interpolate)
qed

theorem evaluate_at_undefined_marker_witness:
  "\<exists>res. evaluate_at 3 1 2 sample_interp sample_rc ''val'' False False False = Inr res
     \<and> n_rows (result_vals res) = 3
     \<and> vals_row (result_vals res) 2 = [NaN]
     \<and> Fin 0 \<notin> set (vals_row (result_vals res) 2)"
proof -
  have h1: "''val'' = ''val'' \<or> ''val'' = ''grad''" by simp
  have h2: "length (ref_status sample_rc) = 3" by (simp add: sample_rc_def)
  have h3: "(2::nat) < 3" by simp
  have st: "ref_status sample_rc ! 2 > 1" by (simp add: sample_rc_def)
  have row: "length (interpolated_row 1 2 sample_interp ''val'' 2) = 1"
    by (simp add: interpolated_row_def)
  from evaluate_at_undefined_marker [OF h1 h2 h3, of 1 2 sample_interp False False] st row
  show ?thesis by auto
qed

text \<open>
  C10. The NaN overwrite depends on \<open>ret_status\<close> alone: the returned values are the
  interpolated array when \<open>ret_status\<close> is True and the NaN-masked array when it is
  False, whatever \<open>ret_cells\<close> and \<open>ret_ref_coors\<close> are. In particular a call with
  \<open>ret_ref_coors\<close> True and \<open>ret_status\<close> False returns the status array together with
  the masked values.
\<close>

theorem evaluate_at_mask_by_ret_status_only:
  assumes "mode = ''val'' \<or> mode = ''grad''"
  shows "(\<exists>res. evaluate_at n_coor n_comp sdim interp rc mode ret_cells ret_status ret_ref_coors
              = Inr res
            \<and> result_vals res =
                (if ret_status then interpolate n_coor n_comp sdim interp mode
                 else set_nan (where_status_gt1 (ref_status rc))
                        (interpolate n_coor n_comp sdim interp mode)))
     \<and> evaluate_at n_coor n_comp sdim interp rc mode ret_cells False True
          = Inr (RetValsRefCellsStatus
                   (set_nan (where_status_gt1 (ref_status rc))
                      (interpolate n_coor n_comp sdim interp mode))
                   (ref_coors rc) (ref_cells rc) (ref_status rc))"
proof -
  have ok: "\<not> (mode \<noteq> ''val'' \<and> mode \<noteq> ''grad'')" using assms by blast
  show ?thesis using ok
    by (cases ret_ref_coors; cases ret_cells; cases ret_status) (simp_all add: evaluate_at_def)
qed

theorem evaluate_at_mask_by_ret_status_only_witness:
  "evaluate_at 3 1 2 sample_interp sample_rc ''val'' False False True
     = Inr (RetValsRefCellsStatus (Vals2 [[Fin 5], [Fin 6], [NaN]])
              [[0, 0], [1, 0], [3, 0]] [0, 0, 0] [0, 1, 2])"
proof -
  have h: "''val'' = ''val'' \<or> ''val'' = ''grad''" by simp
  have m: "set_nan (where_status_gt1 (ref_status sample_rc))
             (interpolate 3 1 2 sample_interp ''val'') = Vals2 [[Fin 5], [Fin 6], [NaN]]"
    by (simp add: sample_rc_def sample_interp_def interpolate_def where_status_gt1_def
        upt_rec numeral_nat)
  have e: "evaluate_at 3 1 2 sample_interp sample_rc ''val'' False False True
          = Inr (RetValsRefCellsStatus
                   (set_nan (where_status_gt1 (ref_status sample_rc))
                      (interpolate 3 1 2 sample_interp ''val''))
                   (ref_coors sample_rc) (ref_cells sample_rc) (ref_status sample_rc))"
    using evaluate_at_mask_by_ret_status_only
            [OF h, of 3 1 2 sample_interp sample_rc False False False]
    by (rule conjunct2)
  show ?thesis unfolding e m by (simp add: sample_rc_def)
qed

section \<open>Properties of the DOF connectivity builder\<close>


lemma update2_same:
  "r < length a \<Longrightarrow> c < length (a ! r) \<Longrightarrow> a[r := (a ! r)[c := v]] ! r ! c = v"
  by simp












section \<open>Properties of the interface finder\<close>

lemma offsets_length: "length (offsets a ns) = Suc (length ns)"
  by (induction ns arbitrary: a) auto

lemma offsets_nth: "k \<le> length ns \<Longrightarrow> offsets a ns ! k = a + sum_list (take k ns)"
proof (induction ns arbitrary: a k)
  case Nil
  then show ?case by simp
next
  case (Cons n ns)
  then show ?case by (cases k) auto
qed

lemma diff_offsets: "diff (offsets a ns) = map int ns"
proof (rule nth_equalityI)
  show "length (diff (offsets a ns)) = length (map int ns)"
    by (simp add: diff_def offsets_length)
next
  fix i assume "i < length (diff (offsets a ns))"
  then have i: "i < length ns" by (simp add: diff_def offsets_length)
  then have "take (Suc i) ns = take i ns @ [ns ! i]" by (simp add: take_Suc_conv_app_nth)
  then show "diff (offsets a ns) ! i = map int ns ! i"
    using i by (simp add: diff_def offsets_length offsets_nth)
qed

lemma drop_sum_concat:
  "k \<le> length xss \<Longrightarrow> drop (sum_list (take k (map length xss))) (concat xss) = concat (drop k xss)"
proof (induction xss arbitrary: k)
  case Nil
  then show ?case by simp
next
  case (Cons xs xss)
  then show ?case by (cases k) auto
qed

lemma block_of_concat:
  assumes "k < length xss"
  shows "take (offsets 0 (map length xss) ! (k + 1) - offsets 0 (map length xss) ! k)
           (drop (offsets 0 (map length xss) ! k) (concat xss)) = xss ! k"
proof -
  have a: "offsets 0 (map length xss) ! k = sum_list (take k (map length xss))"
    using assms by (simp add: offsets_nth)
  have "take (Suc k) (map length xss) = take k (map length xss) @ [length (xss ! k)]"
    using assms by (simp add: take_Suc_conv_app_nth)
  then have b: "offsets 0 (map length xss) ! (k + 1) - offsets 0 (map length xss) ! k
                 = length (xss ! k)"
    using assms by (simp add: offsets_nth)
  have "drop k xss = xss ! k # drop (Suc k) xss"
    using assms by (simp add: Cons_nth_drop_Suc)
  then have "drop (offsets 0 (map length xss) ! k) (concat xss) = xss ! k @ concat (drop (Suc k) xss)"
    using assms drop_sum_concat [of k xss] by (simp add: a)
  then show ?thesis unfolding b by simp
qed

lemma reshape2_concat:
  "\<forall>xs \<in> set xss. length xs = 2 \<Longrightarrow> reshape2 (concat xss) = xss"
proof (induction xss)
  case Nil
  then show ?case by simp
next
  case (Cons xs xss)
  then have "length xs = 2" by simp
  then obtain a b where "xs = [a, b]"
    by (metis One_nat_def Suc_1 length_0_conv length_Suc_conv)
  then show ?case using Cons by simp
qed

lemma takeWhile_stops:
  "x \<in> set xs \<Longrightarrow> \<not> P x \<Longrightarrow> length (takeWhile P xs) < length xs"
  by (induction xs) auto

lemma searchsorted_member:
  assumes "sorted a" "v \<in> set a"
  shows "searchsorted a v < length a \<and> a ! searchsorted a v = v"
proof -
  let ?i = "length (takeWhile (\<lambda>x. x < v) a)"
  have lt: "?i < length a"
    using assms(2) by (rule takeWhile_stops) simp
  have ge: "\<not> a ! ?i < v" using lt by (rule nth_length_takeWhile)
  obtain j where j: "j < length a" "a ! j = v" using assms(2) by (auto simp: in_set_conv_nth)
  have "\<not> j < ?i"
  proof
    assume "j < ?i"
    then have "a ! j \<in> set (takeWhile (\<lambda>x. x < v) a)"
      by (metis nth_mem takeWhile_nth)
    then have "a ! j < v" by (rule set_takeWhileD [THEN conjunct2])
    then show False using j by simp
  qed
  then have "?i \<le> j" by simp
  then have "a ! ?i \<le> a ! j" using assms(1) j(1) by (simp add: sorted_nth_mono)
  then show ?thesis using ge lt j by (simp add: searchsorted_def)
qed

lemma local_id_member:
  assumes "f \<in> set row"
  shows "local_id row f < length row \<and> row ! local_id row f = f"
proof -
  have lt: "length (takeWhile (\<lambda>x. x \<noteq> f) row) < length row"
    using assms by (rule takeWhile_stops) simp
  then show ?thesis using nth_length_takeWhile [OF lt] by (simp add: local_id_def)
qed

lemma where_flag_map:
  "where_flag flag (map h1 F) (map h2 F)
     = map (\<lambda>f. map (\<lambda>c. if flag ! c then h2 f ! 0 else h2 f ! 1) (h1 f)) F"
  by (rule nth_equalityI) (simp_all add: where_flag_def)

lemma map_index_snoc:
  "map (\<lambda>r. map g F ! r @ [map h (map g F) ! r]) [0..<length F] = map (\<lambda>f. g f @ [h (g f)]) F"
  by (rule nth_equalityI) simp_all

lemma map_index_cons':
  "map (\<lambda>r. (F ! r) # (map g F ! r)) [0..<length F] = map (\<lambda>f. f # g f) F"
  by (rule nth_equalityI) simp_all

lemma get_local_ids_blocks:
  "get_local_ids cm F (concat (map (incident_cells cm) F))
       (offsets 0 (map (\<lambda>f. length (incident_cells cm f)) F))
     = concat (map (\<lambda>f. map (\<lambda>c. local_id (cm ! c) f) (incident_cells cm f)) F)"
proof -
  let ?xss = "map (incident_cells cm) F"
  have l: "map (\<lambda>f. length (incident_cells cm f)) F = map length ?xss" by simp
  have "map (\<lambda>k. map (\<lambda>c. local_id (cm ! c) (F ! k))
                (take (offsets 0 (map length ?xss) ! (k + 1) - offsets 0 (map length ?xss) ! k)
                   (drop (offsets 0 (map length ?xss) ! k) (concat ?xss))))
          [0..<length F]
        = map (\<lambda>f. map (\<lambda>c. local_id (cm ! c) f) (incident_cells cm f)) F"
  proof (rule nth_equalityI)
    show "length (map (\<lambda>k. map (\<lambda>c. local_id (cm ! c) (F ! k))
                (take (offsets 0 (map length ?xss) ! (k + 1) - offsets 0 (map length ?xss) ! k)
                   (drop (offsets 0 (map length ?xss) ! k) (concat ?xss))))
          [0..<length F]) = length (map (\<lambda>f. map (\<lambda>c. local_id (cm ! c) f) (incident_cells cm f)) F)"
      by simp
  next
    fix i assume "i < length (map (\<lambda>k. map (\<lambda>c. local_id (cm ! c) (F ! k))
                (take (offsets 0 (map length ?xss) ! (k + 1) - offsets 0 (map length ?xss) ! k)
                   (drop (offsets 0 (map length ?xss) ! k) (concat ?xss))))
          [0..<length F])"
    then have i: "i < length ?xss" by simp
    show "map (\<lambda>k. map (\<lambda>c. local_id (cm ! c) (F ! k))
                (take (offsets 0 (map length ?xss) ! (k + 1) - offsets 0 (map length ?xss) ! k)
                   (drop (offsets 0 (map length ?xss) ! k) (concat ?xss))))
          [0..<length F] ! i = map (\<lambda>f. map (\<lambda>c. local_id (cm ! c) f) (incident_cells cm f)) F ! i"
      using i block_of_concat [OF i] by simp
  qed
  then show ?thesis unfolding get_local_ids_def l by simp
qed

lemma find_level_interface_rows:
  assumes "any_flag flag"
    and "\<forall>f \<in> set (interface_facets (d_cmesh domain) flag). length (incident_cells (d_cmesh domain) f) = 2"
  shows "find_level_interface domain flag =
     Inr (map (\<lambda>f. f # ii_row (d_cmesh domain) flag f) (interface_facets (d_cmesh domain) flag),
          map (\<lambda>f. cells_row (d_cmesh domain) flag f
                     @ [searchsorted (get_coarse flag) (cells_row (d_cmesh domain) flag f ! 1)])
             (interface_facets (d_cmesh domain) flag),
          Some (create_region (d_cmesh domain) (get_coarse flag)),
          Some (create_region (d_cmesh domain) (get_refine flag)))"
proof -
  let ?cm = "d_cmesh domain"
  let ?F = "interface_facets ?cm flag"
  let ?inc = "incident_cells ?cm"
  let ?ids = "\<lambda>f. map (\<lambda>c. local_id (?cm ! c) f) (?inc f)"
  have all2: "list_all (\<lambda>d. d = 2) (diff (offsets 0 (map (\<lambda>f. length (?inc f)) ?F)))"
    using assms(2) by (simp add: diff_offsets list_all_iff)
  have r1: "reshape2 (concat (map ?inc ?F)) = map ?inc ?F"
    using assms(2) by (intro reshape2_concat) simp
  have r2: "reshape2 (concat (map ?ids ?F)) = map ?ids ?F"
    using assms(2) by (intro reshape2_concat) simp
  have w1: "where_flag flag (map ?inc ?F) (map ?ids ?F) = map (ii_row ?cm flag) ?F"
    by (simp add: where_flag_map ii_row_def Let_def)
  have w2: "where_flag flag (map ?inc ?F) (map ?inc ?F) = map (cells_row ?cm flag) ?F"
    by (simp add: where_flag_map cells_row_def Let_def)
  have rc: "r_cells (create_region ?cm (get_coarse flag)) = get_coarse flag"
    by (simp add: create_region_def)
  show ?thesis
    unfolding find_level_interface_def Let_def get_incident_def
    using assms(1) all2
    by (simp add: interface_facets_def [symmetric] get_local_ids_blocks r1 r2 w1 w2 rc
        map_index_snoc map_index_cons' del: map_map)
qed

lemma find_level_interface_fails:
  assumes "any_flag flag"
    and "\<exists>f \<in> set (interface_facets (d_cmesh domain) flag). length (incident_cells (d_cmesh domain) f) \<noteq> 2"
  shows "find_level_interface domain flag = Inl AssertionFailed"
proof -
  have "\<not> list_all (\<lambda>d. d = 2)
          (diff (offsets 0 (map (\<lambda>f. length (incident_cells (d_cmesh domain) f))
                              (interface_facets (d_cmesh domain) flag))))"
    using assms(2) by (simp add: diff_offsets list_all_iff)
  then show ?thesis
    unfolding find_level_interface_def Let_def get_incident_def
    using assms(1) by (simp add: interface_facets_def [symmetric])
qed

lemma find_level_interface_no_flag:
  "\<not> any_flag flag \<Longrightarrow> find_level_interface domain flag = Inr ([], [], None, None)"
  by (simp add: find_level_interface_def)

lemma set_intersect1d: "set (intersect1d a b) = set a \<inter> set b"
  by (auto simp: intersect1d_def)

lemma set_region_facets:
  "set (r_facets (create_region cm cs)) = (\<Union>c \<in> set cs. set (cm ! c))"
  by (auto simp: create_region_def)

lemma no_flag_no_interface: "\<not> any_flag flag \<Longrightarrow> interface_facets cm flag = []"
proof -
  assume "\<not> any_flag flag"
  then have "get_refine flag = []"
    by (auto simp: any_flag_def get_refine_def list_ex_iff filter_empty_conv in_set_conv_nth)
  then have "set (interface_facets cm flag) = {}"
    by (simp add: interface_facets_def set_intersect1d set_region_facets)
  then show ?thesis by simp
qed

lemma set_get_coarse: "set (get_coarse flag) = {i. i < length flag \<and> \<not> flag ! i}"
  by (auto simp: get_coarse_def)

lemma set_get_refine: "set (get_refine flag) = {i. i < length flag \<and> flag ! i}"
  by (auto simp: get_refine_def)

lemma sorted_get_coarse: "sorted (get_coarse flag)"
  by (simp add: get_coarse_def sorted_wrt_filter)

lemma set_incident_cells: "set (incident_cells cm f) = {c. c < length cm \<and> f \<in> set (cm ! c)}"
  by (auto simp: incident_cells_def)

lemma interface_rows:
  assumes len: "length flag = length cm"
    and f: "f \<in> set (interface_facets cm flag)"
    and two: "length (incident_cells cm f) = 2"
  shows "\<exists>cr cc. cells_row cm flag f = [cr, cc]
           \<and> ii_row cm flag f = [local_id (cm ! cr) f, local_id (cm ! cc) f]
           \<and> cr < length flag \<and> flag ! cr \<and> cc < length flag \<and> \<not> flag ! cc
           \<and> f \<in> set (cm ! cr) \<and> f \<in> set (cm ! cc)
           \<and> set (incident_cells cm f) = {cr, cc}"
proof -
  from f obtain c0 c1 where c0: "c0 < length flag" "\<not> flag ! c0" "f \<in> set (cm ! c0)"
    and c1: "c1 < length flag" "flag ! c1" "f \<in> set (cm ! c1)"
    by (auto simp: interface_facets_def set_intersect1d set_region_facets set_get_coarse
        set_get_refine)
  from two obtain x y where xy: "incident_cells cm f = [x, y]"
    by (metis One_nat_def Suc_1 length_0_conv length_Suc_conv)
  have mem: "c0 \<in> set (incident_cells cm f)" "c1 \<in> set (incident_cells cm f)"
    using c0 c1 len by (simp_all add: set_incident_cells)
  have ne: "c0 \<noteq> c1" using c0(2) c1(2) by auto
  from mem ne xy consider "x = c1 \<and> y = c0" | "x = c0 \<and> y = c1" by auto
  then show ?thesis
  proof cases
    case 1
    then show ?thesis using c0 c1 xy
      by (intro exI [of _ c1] exI [of _ c0]) (simp add: cells_row_def ii_row_def)
  next
    case 2
    then show ?thesis using c0 c1 xy
      by (intro exI [of _ c1] exI [of _ c0]) (auto simp: cells_row_def ii_row_def)
  qed
qed

lemma interface_record:
  assumes len: "length refine_flag = length (d_cmesh domain)"
    and res: "find_level_interface domain refine_flag = Inr (facets, cells, region0, region1)"
    and k: "k < length cells"
  shows "length facets = length cells \<and>
    (\<exists>f lr lc cr cc i.
        facets ! k = [f, lr, lc] \<and> cells ! k = [cr, cc, i]
      \<and> set (incident_cells (d_cmesh domain) f) = {cr, cc}
      \<and> cr < length refine_flag \<and> refine_flag ! cr
      \<and> cc < length refine_flag \<and> \<not> refine_flag ! cc
      \<and> lr < length (d_cmesh domain ! cr) \<and> d_cmesh domain ! cr ! lr = f
      \<and> lc < length (d_cmesh domain ! cc) \<and> d_cmesh domain ! cc ! lc = f
      \<and> i < length (get_coarse refine_flag) \<and> get_coarse refine_flag ! i = cc
      \<and> map_option r_cells region0 = Some (get_coarse refine_flag))"
proof -
  let ?cm = "d_cmesh domain"
  let ?F = "interface_facets ?cm refine_flag"
  have any: "any_flag refine_flag"
  proof (rule ccontr)
    assume "\<not> any_flag refine_flag"
    then have "cells = []" using res by (simp add: find_level_interface_no_flag)
    then show False using k by simp
  qed
  have two: "\<forall>f \<in> set ?F. length (incident_cells ?cm f) = 2"
  proof (rule ccontr)
    assume "\<not> (\<forall>f \<in> set ?F. length (incident_cells ?cm f) = 2)"
    then have "find_level_interface domain refine_flag = Inl AssertionFailed"
      using any by (intro find_level_interface_fails) auto
    then show False using res by simp
  qed
  note rows = find_level_interface_rows [OF any two]
  have fs: "facets = map (\<lambda>f. f # ii_row ?cm refine_flag f) ?F"
    and cs: "cells = map (\<lambda>f. cells_row ?cm refine_flag f
                     @ [searchsorted (get_coarse refine_flag) (cells_row ?cm refine_flag f ! 1)]) ?F"
    and r0: "region0 = Some (create_region ?cm (get_coarse refine_flag))"
    using res rows by simp_all
  have kF: "k < length ?F" using k cs by simp
  then have fk: "?F ! k \<in> set ?F" by simp
  from interface_rows [OF len fk] two fk
  obtain cr cc where row: "cells_row ?cm refine_flag (?F ! k) = [cr, cc]"
    "ii_row ?cm refine_flag (?F ! k) = [local_id (?cm ! cr) (?F ! k), local_id (?cm ! cc) (?F ! k)]"
    "cr < length refine_flag" "refine_flag ! cr" "cc < length refine_flag" "\<not> refine_flag ! cc"
    "?F ! k \<in> set (?cm ! cr)" "?F ! k \<in> set (?cm ! cc)"
    "set (incident_cells ?cm (?F ! k)) = {cr, cc}"
    by blast
  have "cc \<in> set (get_coarse refine_flag)" using row(5,6) by (simp add: set_get_coarse)
  then have ss: "searchsorted (get_coarse refine_flag) cc < length (get_coarse refine_flag)"
    "get_coarse refine_flag ! searchsorted (get_coarse refine_flag) cc = cc"
    using searchsorted_member [OF sorted_get_coarse] by simp_all
  have "facets ! k = [?F ! k, local_id (?cm ! cr) (?F ! k), local_id (?cm ! cc) (?F ! k)]"
    using kF fs row(2) by simp
  moreover have "cells ! k = [cr, cc, searchsorted (get_coarse refine_flag) cc]"
    using kF cs row(1) by simp
  moreover have "length facets = length cells" using fs cs by simp
  moreover have "map_option r_cells region0 = Some (get_coarse refine_flag)"
    using r0 by (simp add: create_region_def)
  ultimately show ?thesis
    using row(3-9) ss local_id_member [OF row(7)] local_id_member [OF row(8)] by blast
qed



text \<open>
  C8. \<open>find_level_interface\<close> fails with the assertion error exactly when some interface
  facet has a number of incident cells other than two; when every interface facet has
  exactly two incident cells the assertion does not fire and the call returns.
\<close>

theorem find_level_interface_two_incident:
  "(find_level_interface domain refine_flag = Inl AssertionFailed \<longleftrightarrow>
      (\<exists>f \<in> set (interface_facets (d_cmesh domain) refine_flag).
          length (incident_cells (d_cmesh domain) f) \<noteq> 2))
   \<and> ((\<forall>f \<in> set (interface_facets (d_cmesh domain) refine_flag).
          length (incident_cells (d_cmesh domain) f) = 2) \<longrightarrow>
        (\<exists>r. find_level_interface domain refine_flag = Inr r))"
proof (cases "any_flag refine_flag")
  case False
  then show ?thesis
    by (simp add: find_level_interface_no_flag no_flag_no_interface)
next
  case any: True
  show ?thesis
  proof (cases "\<forall>f \<in> set (interface_facets (d_cmesh domain) refine_flag).
          length (incident_cells (d_cmesh domain) f) = 2")
    case True
    then show ?thesis using find_level_interface_rows [OF any True] by auto
  next
    case False
    then have "find_level_interface domain refine_flag = Inl AssertionFailed"
      using any by (intro find_level_interface_fails) auto
    then show ?thesis using False by auto
  qed
qed


lemma quad_two_incident:
  "\<forall>f \<in> set (interface_facets (d_cmesh quad_domain) [False, False, False, True]).
      length (incident_cells (d_cmesh quad_domain) f) = 2"
  by code_simp

theorem find_level_interface_two_incident_witness:
  "find_level_interface branching_domain [False, False, False, True] = Inl AssertionFailed
   \<and> (\<exists>r. find_level_interface quad_domain [False, False, False, True] = Inr r)"
proof -
  have "6 \<in> set (interface_facets (d_cmesh branching_domain) [False, False, False, True])"
    by code_simp
  moreover have "length (incident_cells (d_cmesh branching_domain) 6) \<noteq> 2"
    by code_simp
  ultimately have a: "find_level_interface branching_domain [False, False, False, True]
      = Inl AssertionFailed"
    using find_level_interface_two_incident
            [of branching_domain "[False, False, False, True]"]
    by blast
  have b: "\<exists>r. find_level_interface quad_domain [False, False, False, True] = Inr r"
    using find_level_interface_two_incident [of quad_domain "[False, False, False, True]"]
      quad_two_incident
    by blast
  show ?thesis using a b by blast
qed

section \<open>Properties of the region refiner\<close>

lemma uint32_id: "n < 2 ^ 32 \<Longrightarrow> uint32 n = n"
  by (simp add: uint32_def)

lemma refine_region_some:
  "refine_region rs domain0 (Some r0) (Some r1) =
     Inr (\<lparr>coors = coors (rs (d_mesh domain0) (r_cells r1)),
           conn = map (\<lambda>c. conn (d_mesh domain0) ! c) (r_cells r0)
                    @ conn (rs (d_mesh domain0) (r_cells r1)),
           mat_id = map (\<lambda>c. mat_id (d_mesh domain0) ! c) (r_cells r0)
                    @ mat_id (rs (d_mesh domain0) (r_cells r1)),
           desc = desc (rs (d_mesh domain0) (r_cells r1))\<rparr>,
          Some (map (\<lambda>i. uint32 (r_cells r1 ! i)
                          # map (\<lambda>k. uint32 (length (r_cells r0) + (4 * i + k))) [0..<4])
                  [0..<length (r_cells r1)]))"
  by (simp add: refine_region_def Let_def)


lemma find_level_interface_cases:
  assumes res: "find_level_interface domain flag = Inr (facets, cells, region0, region1)"
  shows "(\<not> any_flag flag \<and> facets = [] \<and> cells = [] \<and> region0 = None \<and> region1 = None)
       \<or> (any_flag flag
          \<and> (\<forall>f \<in> set (interface_facets (d_cmesh domain) flag).
                 length (incident_cells (d_cmesh domain) f) = 2)
          \<and> facets = map (\<lambda>f. f # ii_row (d_cmesh domain) flag f)
                        (interface_facets (d_cmesh domain) flag)
          \<and> cells = map (\<lambda>f. cells_row (d_cmesh domain) flag f
                     @ [searchsorted (get_coarse flag) (cells_row (d_cmesh domain) flag f ! 1)])
                        (interface_facets (d_cmesh domain) flag)
          \<and> region0 = Some (create_region (d_cmesh domain) (get_coarse flag))
          \<and> region1 = Some (create_region (d_cmesh domain) (get_refine flag)))"
proof (cases "any_flag flag")
  case False
  then show ?thesis using res by (simp add: find_level_interface_no_flag)
next
  case any: True
  have two: "\<forall>f \<in> set (interface_facets (d_cmesh domain) flag).
                 length (incident_cells (d_cmesh domain) f) = 2"
  proof (rule ccontr)
    assume "\<not> ?thesis"
    then have "find_level_interface domain flag = Inl AssertionFailed"
      using any by (intro find_level_interface_fails) auto
    then show False using res by simp
  qed
  show ?thesis using res any two find_level_interface_rows [OF any two] by simp
qed








section \<open>Properties of the basis transform\<close>






lemma sample_gsubs_found:
  "call_find_facet_substitutions [[6, 0, 2], [7, 3, 1]] [[3, 1, 1], [3, 2, 2]]
       (Some [[3, 3, 4, 5, 6]]) (Some refine_edges_2_4)
     = Inr (map (map int) sample_gsubs)"
  by code_simp




section \<open>Properties of the top-level refinement\<close>

lemma call_three_arguments:
  "call_find_facet_substitutions facets cells sub_cells None = Inl TypeError"
  by (simp add: call_find_facet_substitutions_def)



lemma collect_all_Inr:
  "\<forall>x \<in> set xs. \<exists>v. x = Inr v \<Longrightarrow> \<exists>vs. collect xs = Inr vs"
proof (induction xs)
  case Nil
  then show ?case by simp
next
  case (Cons x xs)
  then obtain v vs where "x = Inr v" "collect xs = Inr vs" by auto
  then show ?case by simp
qed

lemma set_refine_edges_2_4:
  "k < 4 \<Longrightarrow> e \<in> set (refine_edges_2_4 ! k) \<Longrightarrow> e ! 0 < 4"
proof -
  assume "k < 4" and e: "e \<in> set (refine_edges_2_4 ! k)"
  then consider "k = 0" | "k = 1" | "k = 2" | "k = 3" by linarith
  then show ?thesis using e by cases (auto simp: refine_edges_2_4_def)
qed

lemma sorted_get_refine: "sorted (get_refine flag)"
  by (simp add: get_refine_def sorted_wrt_filter)

lemma length_coarse_refine: "length (get_coarse flag) + length (get_refine flag) = length flag"
  using sum_length_filter_compl [of "\<lambda>i. \<not> flag ! i" "[0..<length flag]"]
  by (simp add: get_coarse_def get_refine_def)

lemma facet_substitution_ok:
  assumes sc: "sc = map (\<lambda>i. uint32 (get_refine flag ! i)
                          # map (\<lambda>k. uint32 (n0 + (4 * i + k))) [0..<4])
                  [0..<length (get_refine flag)]"
    and small: "length flag \<le> 2 ^ 32"
    and cr: "cr < length flag" "flag ! cr"
    and lr: "lr < 4"
  shows "\<exists>v. facet_substitution sc refine_edges_2_4 [f, lr, lc] [cr, cc, i] = Inr v"
proof -
  have "map hd sc = map uint32 (get_refine flag)"
    unfolding sc by (rule nth_equalityI) simp_all
  also have "\<dots> = map (\<lambda>c. c) (get_refine flag)"
  proof (rule map_cong [OF refl])
    fix c assume "c \<in> set (get_refine flag)"
    then have "c < length flag" by (simp add: set_get_refine)
    then show "uint32 c = c" using small by (simp add: uint32_id)
  qed
  finally have hd: "map hd sc = get_refine flag" by simp
  have "cr \<in> set (get_refine flag)" using cr by (simp add: set_get_refine)
  then have isub: "searchsorted (get_refine flag) cr < length (get_refine flag)"
    using searchsorted_member [OF sorted_get_refine] by simp
  have lsc: "length sc = length (get_refine flag)" unfolding sc by simp
  have lrow: "length (tl (sc ! searchsorted (get_refine flag) cr)) = 4"
    using isub unfolding sc by simp
  have lrf: "length refine_edges_2_4 = 4" by (simp add: refine_edges_2_4_def)
  have ok: "\<not> list_ex (\<lambda>e. length (tl (sc ! searchsorted (get_refine flag) cr)) \<le> e ! 0)
             (refine_edges_2_4 ! lr)"
    unfolding lrow list_ex_iff using set_refine_edges_2_4 [OF lr] by (meson not_le)
  show ?thesis
    unfolding facet_substitution_def Let_def
    using isub lr ok by (simp add: hd lsc lrf)
qed

lemma refine_type_error:
  assumes any: "any_flag flag"
    and two: "\<forall>f \<in> set (interface_facets (d_cmesh d) flag).
                length (incident_cells (d_cmesh d) f) = 2"
    and len: "length flag = length (d_cmesh d)"
    and wf: "wf_domain d"
    and small: "4 * length flag \<le> 2 ^ 32"
    and ch: "4 * length (get_refine flag) \<le> length (conn (rs (d_mesh d) (get_refine flag)))"
  shows "refine rs d flag g = Inl TypeError"
proof -
  let ?cm = "d_cmesh d"
  let ?co = "get_coarse flag" and ?re = "get_refine flag"
  define r0 where "r0 = create_region ?cm ?co"
  define r1 where "r1 = create_region ?cm ?re"
  define m1r where "m1r = rs (d_mesh d) ?re"
  define m where "m = \<lparr>coors = coors m1r,
           conn = map (\<lambda>c. conn (d_mesh d) ! c) ?co @ conn m1r,
           mat_id = map (\<lambda>c. mat_id (d_mesh d) ! c) ?co @ mat_id m1r,
           desc = desc m1r\<rparr>"
  define sc where "sc = map (\<lambda>i. uint32 (?re ! i)
                          # map (\<lambda>k. uint32 (length ?co + (4 * i + k))) [0..<4])
                  [0..<length ?re]"
  obtain facets cells where res: "find_level_interface d flag = Inr (facets, cells, Some r0, Some r1)"
    using find_level_interface_rows [OF any two] unfolding r0_def r1_def by blast
  have rc: "r_cells r0 = ?co" "r_cells r1 = ?re"
    by (simp_all add: r0_def r1_def create_region_def)
  have rr: "refine_region rs d (Some r0) (Some r1) = Inr (m, Some sc)"
    unfolding refine_region_some rc m_def sc_def m1r_def by simp
  have l0: "length (conn (d_mesh d)) = length flag" using wf len by (simp add: wf_domain_def)
  have l1: "length (conn m) = length ?co + length (conn m1r)" by (simp add: m_def)
  have n01: "length ?co + length ?re = length flag" by (rule length_coarse_refine)
  have small': "length flag \<le> 2 ^ 32" using small by simp
  note rec = interface_record [OF len res]
  have lf: "length facets = length cells"
  proof (cases "cells = []")
    case True
    then show ?thesis
      using find_level_interface_cases [OF res] by auto
  next
    case False
    then have "0 < length cells" by simp
    from rec [OF this] show ?thesis by blast
  qed
  have g1: "\<not> list_ex (\<lambda>row. list_ex (\<lambda>c. length (conn m) \<le> c) (tl row)) sc"
  proof -
    have "c < length (conn m)" if "row \<in> set sc" "c \<in> set (tl row)" for row c
    proof -
      from that(1) obtain i where i: "i < length ?re"
        and row: "row = uint32 (?re ! i) # map (\<lambda>k. uint32 (length ?co + (4 * i + k))) [0..<4]"
        unfolding sc_def by auto
      from that(2) row obtain k where k: "k < 4" and c: "c = uint32 (length ?co + (4 * i + k))"
        by auto
      have b: "length ?co + (4 * i + k) < length ?co + 4 * length ?re" using i k by simp
      also have "\<dots> \<le> 4 * length flag" using n01 by simp
      finally have "uint32 (length ?co + (4 * i + k)) = length ?co + (4 * i + k)"
        using small by (simp add: uint32_id)
      then show ?thesis using b ch unfolding c l1 m1r_def by simp
    qed
    then show ?thesis unfolding list_ex_iff by (meson not_le)
  qed
  have g2: "\<not> list_ex (\<lambda>row. length (conn (d_mesh d)) \<le> hd row) sc"
  proof -
    have "hd row < length (conn (d_mesh d))" if "row \<in> set sc" for row
    proof -
      from that obtain i where i: "i < length ?re" and h: "hd row = uint32 (?re ! i)"
        unfolding sc_def by auto
      have "?re ! i \<in> set ?re" using i by simp
      then have "?re ! i < length flag" by (simp add: set_get_refine)
      then show ?thesis using small' unfolding h l0 by (simp add: uint32_id)
    qed
    then show ?thesis unfolding list_ex_iff by (meson not_le)
  qed
  have rows: "\<exists>f lr lc cr cc i. facets ! k = [f, lr, lc] \<and> cells ! k = [cr, cc, i]
        \<and> cr < length flag \<and> flag ! cr \<and> cc < length flag \<and> lr < length (?cm ! cr)
        \<and> i < length ?co \<and> ?co ! i = cc" if "k < length cells" for k
    using rec [OF that] by blast
  have g34: "row ! 1 < length (conn (d_mesh d)) \<and> row ! 2 < length (conn m)
             \<and> conn (d_mesh d) ! (row ! 1) = conn m ! (row ! 2)" if "row \<in> set cells" for row
  proof -
    from that obtain k where k: "k < length cells" "row = cells ! k"
      by (auto simp: in_set_conv_nth)
    from rows [OF k(1)] obtain cr cc i where "row = [cr, cc, i]" "cc < length flag"
      "i < length ?co" "?co ! i = cc" unfolding k(2) by blast
    then show ?thesis unfolding l0 l1 by (simp add: m_def nth_append)
  qed
  have g3: "\<not> list_ex (\<lambda>row. length (conn (d_mesh d)) \<le> row ! 1) cells"
    unfolding list_ex_iff using g34 by (meson not_le)
  have g4: "\<not> list_ex (\<lambda>row. length (conn m) \<le> row ! 2) cells"
    unfolding list_ex_iff using g34 by (meson not_le)
  have eq: "map (\<lambda>row. conn (d_mesh d) ! (row ! 1)) cells = map (\<lambda>row. conn m ! (row ! 2)) cells"
    by (rule map_cong [OF refl]) (use g34 in blast)
  have call1: "\<exists>v. call_find_facet_substitutions facets cells (Some sc) (Some refine_edges_2_4)
                  = Inr v" if d24: "desc (d_mesh d) = ''2_4''"
  proof -
    have four: "length (?cm ! c) = 4" if "c < length flag" for c
      using wf d24 that len by (simp add: wf_domain_def list_all_length)
    have "\<exists>v. facet_substitution sc refine_edges_2_4 (facets ! k) (cells ! k) = Inr v"
      if "k < length facets" for k
    proof -
      from that lf have "k < length cells" by simp
      from rows [OF this] obtain f lr lc cr cc i where
        r: "facets ! k = [f, lr, lc]" "cells ! k = [cr, cc, i]" "cr < length flag" "flag ! cr"
        "lr < length (?cm ! cr)"
        by blast
      have "lr < 4" using r(5) four [OF r(3)] by simp
      from facet_substitution_ok [OF sc_def small' r(3,4) this]
      show ?thesis unfolding r(1,2) .
    qed
    then have "\<exists>vs. collect (map (\<lambda>ii. facet_substitution sc refine_edges_2_4 (facets ! ii) (cells ! ii))
                 [0..<length facets]) = Inr vs"
      by (intro collect_all_Inr) auto
    then show ?thesis
      by (simp add: call_find_facet_substitutions_def find_facet_substitutions_def)
  qed
  show ?thesis
  proof (cases "desc (d_mesh d) = ''2_4''")
    case True
    from call1 [OF True] obtain v where
      v: "call_find_facet_substitutions facets cells (Some sc) (Some refine_edges_2_4) = Inr v"
      by blast
    show ?thesis
      using g1 g2 g3 g4 eq True v
      by (auto simp: refine_def res rr Let_def call_three_arguments split: sum.splits)
  next
    case False
    show ?thesis
      using g1 g2 g3 g4 eq False
      by (auto simp: refine_def res rr Let_def call_three_arguments split: sum.splits)
  qed
qed

lemma quad_sample_type_error:
  "refine refine_cell3 quad_domain [False, False, False, True] g = Inl TypeError"
proof (rule refine_type_error)
  show "any_flag [False, False, False, True]" by code_simp
  show "\<forall>f \<in> set (interface_facets (d_cmesh quad_domain) [False, False, False, True]).
      length (incident_cells (d_cmesh quad_domain) f) = 2"
    by (rule quad_two_incident)
  show "length [False, False, False, True] = length (d_cmesh quad_domain)"
    by (simp add: quad_domain_def)
  show "wf_domain quad_domain" by code_simp
  show "4 * length [False, False, False, True] \<le> 2 ^ 32" by simp
  have "get_refine [False, False, False, True] = [3]" by code_simp
  then show "4 * length (get_refine [False, False, False, True])
      \<le> length (conn (refine_cell3 (d_mesh quad_domain) (get_refine [False, False, False, True])))"
    by (simp add: refine_cell3_def)
qed




text \<open>
  C6. A chained pass over the sample grid, with previously recorded substitutions: the
  call raises \<open>TypeError\<close> at the three-argument call, before the statements that shift
  the prior records and append the new ones, so no shifted list is produced.
\<close>

theorem refine_chained_pass_raises:
  "refine refine_cell3 quad_domain [False, False, False, True] (Some prior_gsubs) = Inl TypeError"
  by (rule quad_sample_type_error)

end
